theory Spec2Isabelle
  imports Main "HOL-Library.AList"
begin

section \<open>The food-delivery graph model demo (app.py)\<close>

text \<open>
  The program is one Python script: two literals (\<open>graph_model\<close> and \<open>queries\<close>)
  and a chain of \<open>if page == ...\<close> branches, one per page. Each branch is embedded as a
  function from the literals (and, for the Queries page, the selected option) to what the
  branch hands to the user interface, or to the exception it raises.

  Python strings are embedded as \<open>string\<close>; a character outside ASCII is given by the
  bytes of its UTF-8 encoding. No operation of the script that is embedded here splits a
  string inside such a character: the only separator searched for is the ASCII full stop.
\<close>

subsection \<open>Exceptions\<close>

text \<open>
  The exceptions the embedded statements can raise: a missing dictionary key, a list index
  out of range, and \<open>ValueError\<close> for \<open>int\<close> applied to text that is no integer
  literal and for a colour that matplotlib refuses. The last constructor is the error
  class named by the specification; no statement of the script raises it.
\<close>

datatype py_error =
    KeyError string
  | IndexError
  | ValueError string
  | ModelIntegrityError

subsection \<open>The data model literal\<close>

record node_type =
  node_type :: string
  node_properties :: "string list"
  node_color :: string
  node_icon :: string

record edge_type =
  edge_from :: string
  edge_to :: string
  edge_relationship :: string
  edge_properties :: "string list"

record registry =
  nodes :: "node_type list"
  edges :: "edge_type list"

definition graph_model :: registry where
  "graph_model = \<lparr>
     nodes = [
       \<lparr>node_type = ''Customer'',
        node_properties = [''customer_id'', ''name'', ''phone'', ''address'', ''join_date''],
        node_color = ''#60a5fa'',
        node_icon = [CHR 0xF0, CHR 0x9F, CHR 0x91, CHR 0xA4]\<rparr>,
       \<lparr>node_type = ''Restaurant'',
        node_properties = [''restaurant_id'', ''name'', ''cuisine_type'', ''rating'', ''location''],
        node_color = ''#f472b6'',
        node_icon = [CHR 0xF0, CHR 0x9F, CHR 0x8F, CHR 0xAA]\<rparr>,
       \<lparr>node_type = ''Dish'',
        node_properties = [''dish_id'', ''name'', ''price'', ''category'', ''is_vegetarian''],
        node_color = ''#fbbf24'',
        node_icon = [CHR 0xF0, CHR 0x9F, CHR 0x8D, CHR 0xBD, CHR 0xEF, CHR 0xB8, CHR 0x8F]\<rparr>,
       \<lparr>node_type = ''DeliveryPerson'',
        node_properties = [''person_id'', ''name'', ''phone'', ''vehicle_type'', ''rating''],
        node_color = ''#34d399'',
        node_icon = [CHR 0xF0, CHR 0x9F, CHR 0x8F, CHR 0x8D, CHR 0xEF, CHR 0xB8, CHR 0x8F]\<rparr>,
       \<lparr>node_type = ''Order'',
        node_properties = [''order_id'', ''order_date'', ''total_amount'', ''status'', ''delivery_time''],
        node_color = ''#a78bfa'',
        node_icon = [CHR 0xF0, CHR 0x9F, CHR 0x93, CHR 0xA6]\<rparr>],
     edges = [
       \<lparr>edge_from = ''Customer'', edge_to = ''Order'', edge_relationship = ''PLACES'',
        edge_properties = [''timestamp'']\<rparr>,
       \<lparr>edge_from = ''Order'', edge_to = ''Restaurant'', edge_relationship = ''FROM'',
        edge_properties = [''order_date'']\<rparr>,
       \<lparr>edge_from = ''Order'', edge_to = ''Dish'', edge_relationship = ''CONTAINS'',
        edge_properties = [''quantity'', ''price'']\<rparr>,
       \<lparr>edge_from = ''DeliveryPerson'', edge_to = ''Order'', edge_relationship = ''DELIVERS'',
        edge_properties = [''pickup_time'', ''delivery_time'']\<rparr>,
       \<lparr>edge_from = ''Restaurant'', edge_to = ''Dish'', edge_relationship = ''SERVES'',
        edge_properties = [''availability'']\<rparr>,
       \<lparr>edge_from = ''Customer'', edge_to = ''Restaurant'', edge_relationship = ''REVIEWS'',
        edge_properties = [''rating'', ''comment'', ''date'']\<rparr>]\<rparr>"

subsection \<open>Integers as text\<close>

text \<open>
  \<open>str\<close> of a Python integer, as the f-strings of the script apply it: the decimal
  digits, with a minus sign in front of a negative number.
\<close>

definition digit_char :: "nat \<Rightarrow> char" where
  "digit_char d = ''0123456789'' ! (d mod 10)"

fun str_nat :: "nat \<Rightarrow> string" where
  "str_nat n = (if n < 10 then [digit_char n] else str_nat (n div 10) @ [digit_char (n mod 10)])"

declare str_nat.simps [simp del]

definition str_int :: "int \<Rightarrow> string" where
  "str_int i = (if i < 0 then CHR ''-'' # str_nat (nat (- i)) else str_nat (nat i))"

subsection \<open>The Overview page\<close>

text \<open>
  The three \<open>st.metric\<close> calls at the foot of the Overview branch. Their values are string
  literals of the script; they are not computed from \<open>graph_model\<close>.
\<close>

record metric =
  metric_label :: string
  metric_value :: string
  metric_help :: string

definition overview_metrics :: "metric list" where
  "overview_metrics = [
     \<lparr>metric_label = [CHR 0xF0, CHR 0x9F, CHR 0x94, CHR 0xB7] @ '' Node Types'',
      metric_value = ''5'',
      metric_help = ''Customer, Restaurant, Dish, DeliveryPerson, Order''\<rparr>,
     \<lparr>metric_label = [CHR 0xF0, CHR 0x9F, CHR 0x94, CHR 0x97] @ '' Edge Types'',
      metric_value = ''6'',
      metric_help = ''PLACES, FROM, CONTAINS, DELIVERS, SERVES, REVIEWS''\<rparr>,
     \<lparr>metric_label = [CHR 0xF0, CHR 0x9F, CHR 0x94, CHR 0x8D] @ '' Query Examples'',
      metric_value = ''6'',
      metric_help = ''Common graph traversal patterns''\<rparr>]"

subsection \<open>The Visualization page\<close>

text \<open>
  A Python dictionary is an association list in insertion order; \<open>d[k] = v\<close> is
  \<open>AList.update k v\<close>, which overwrites the value of a key already present, in place,
  and appends a new key at the end.

  \<open>nx.DiGraph\<close> keeps, for every vertex in order of first insertion, its successors in
  order of first insertion. \<open>add_node\<close> leaves a vertex that is already present alone;
  \<open>add_edge u v\<close> first inserts \<open>u\<close>, then \<open>v\<close>, when they are missing, and then
  records \<open>v\<close> as a successor of \<open>u\<close>.
\<close>

type_synonym digraph = "(string \<times> string list) list"

definition add_node :: "string \<Rightarrow> digraph \<Rightarrow> digraph" where
  "add_node n G = (if n \<in> fst ` set G then G else G @ [(n, [])])"

definition add_succ :: "string \<Rightarrow> string \<Rightarrow> digraph \<Rightarrow> digraph" where
  "add_succ u v G =
     map (\<lambda>(n, ss). if n = u \<and> v \<notin> set ss then (n, ss @ [v]) else (n, ss)) G"

definition add_edge :: "string \<Rightarrow> string \<Rightarrow> digraph \<Rightarrow> digraph" where
  "add_edge u v G = add_succ u v (add_node v (add_node u G))"

definition G_nodes :: "digraph \<Rightarrow> string list" where
  "G_nodes G = map fst G"

definition G_edges :: "digraph \<Rightarrow> (string \<times> string) list" where
  "G_edges G = concat (map (\<lambda>(n, ss). map (Pair n) ss) G)"

text \<open>The two loops that fill the graph and the dictionaries \<open>node_colors\<close> and
  \<open>edge_labels\<close>.\<close>

fun add_nodes :: "node_type list \<Rightarrow> digraph \<times> (string \<times> string) list
    \<Rightarrow> digraph \<times> (string \<times> string) list" where
  "add_nodes [] (G, node_colors) = (G, node_colors)"
| "add_nodes (node # rest) (G, node_colors) =
     add_nodes rest (add_node (node_type node) G,
                     AList.update (node_type node) (node_color node) node_colors)"

fun add_edges :: "edge_type list \<Rightarrow> digraph \<times> ((string \<times> string) \<times> string) list
    \<Rightarrow> digraph \<times> ((string \<times> string) \<times> string) list" where
  "add_edges [] (G, edge_labels) = (G, edge_labels)"
| "add_edges (edge # rest) (G, edge_labels) =
     add_edges rest (add_edge (edge_from edge) (edge_to edge) G,
                     AList.update (edge_from edge, edge_to edge) (edge_relationship edge)
                       edge_labels)"

definition build_graph :: "registry \<Rightarrow> digraph" where
  "build_graph m = fst (add_edges (edges m) (fst (add_nodes (nodes m) ([], [])), []))"

definition node_colors_of :: "registry \<Rightarrow> (string \<times> string) list" where
  "node_colors_of m = snd (add_nodes (nodes m) ([], []))"

definition edge_labels_of :: "registry \<Rightarrow> ((string \<times> string) \<times> string) list" where
  "edge_labels_of m = snd (add_edges (edges m) (fst (add_nodes (nodes m) ([], [])), []))"

text \<open>
  The loop \<open>for node in G.nodes()\<close>: the argument \<open>node_colors[node]\<close> is evaluated
  first and raises \<open>KeyError\<close> for a vertex without a colour; then
  \<open>nx.draw_networkx_nodes\<close> hands the colour to matplotlib, which raises
  \<open>ValueError\<close> for a string that is no colour. Which strings matplotlib takes for
  colours (\<open>is_color_like\<close>) is library code, a parameter here. The argument of
  \<open>ValueError\<close> is the refused text, not the message.
\<close>

fun draw_nodes :: "(string \<Rightarrow> bool) \<Rightarrow> (string \<times> string) list \<Rightarrow> string list
    \<Rightarrow> py_error + (string \<times> string) list" where
  "draw_nodes is_color_like node_colors [] = Inr []"
| "draw_nodes is_color_like node_colors (node # rest) =
     (case map_of node_colors node of
        None \<Rightarrow> Inl (KeyError node)
      | Some c \<Rightarrow>
          if is_color_like c
          then (case draw_nodes is_color_like node_colors rest of
                  Inl e \<Rightarrow> Inl e
                | Inr drawn \<Rightarrow> Inr ((node, c) # drawn))
          else Inl (ValueError c))"

text \<open>
  The legend: \<open>st.columns(5)\<close> gives five columns, and \<open>cols[idx]\<close> raises
  \<open>IndexError\<close> for a sixth node type.
\<close>

definition legend :: "node_type list \<Rightarrow> py_error + (string \<times> string \<times> string) list" where
  "legend ns =
     (if length ns > 5 then Inl IndexError
      else Inr (map (\<lambda>node. (node_color node, node_icon node, node_type node)) ns))"

text \<open>
  What the branch hands to the plotting library, in the order of the script. The layout
  \<open>nx.spring_layout(G, k=2, iterations=50, seed=42)\<close> is library code working on
  floating-point numbers; the page is a function of it, and nothing below depends on what
  it returns.
\<close>

record 'p figure =
  fig_pos :: 'p
  fig_nodes :: "(string \<times> string) list"
  fig_edges :: "(string \<times> string) list"
  fig_labels :: "string list"
  fig_edge_labels :: "((string \<times> string) \<times> string) list"
  fig_legend :: "(string \<times> string \<times> string) list"

definition visualization_page :: "(string \<Rightarrow> bool) \<Rightarrow> (digraph \<Rightarrow> 'p) \<Rightarrow> registry
    \<Rightarrow> py_error + 'p figure" where
  "visualization_page is_color_like spring_layout m =
     (let (G0, node_colors) = add_nodes (nodes m) ([], []);
          (G, edge_labels) = add_edges (edges m) (G0, []);
          pos = spring_layout G
      in case draw_nodes is_color_like node_colors (G_nodes G) of
           Inl e \<Rightarrow> Inl e
         | Inr drawn \<Rightarrow>
             (case legend (nodes m) of
                Inl e \<Rightarrow> Inl e
              | Inr lg \<Rightarrow>
                  Inr \<lparr>fig_pos = pos, fig_nodes = drawn, fig_edges = G_edges G,
                       fig_labels = G_nodes G, fig_edge_labels = edge_labels,
                       fig_legend = lg\<rparr>))"

subsection \<open>Result tables and their export\<close>

text \<open>
  A cell of a result table is a Python string, integer or float. A float is kept as the
  decimal literal of the script, mantissa and number of decimals (\<open>4.7\<close> is
  \<open>FloatCell 47 1\<close>): Python prints the double read from a literal of up to 15
  significant digits with those digits, and the text is all the export uses.

  \<open>pd.DataFrame({...})\<close> of a dictionary of columns keeps the columns in the order of
  the dictionary; its rows are read across the columns. (The constructor refuses columns
  of different lengths, so the number of rows is the length of any column.)
\<close>

datatype cell = StrCell string | IntCell int | FloatCell int nat

type_synonym dataframe = "(string \<times> cell list) list"

definition columns :: "dataframe \<Rightarrow> string list" where
  "columns df = map fst df"

definition nrows :: "dataframe \<Rightarrow> nat" where
  "nrows df = (case df of [] \<Rightarrow> 0 | (name, col) # rest \<Rightarrow> length col)"

definition rows :: "dataframe \<Rightarrow> cell list list" where
  "rows df = map (\<lambda>i. map (\<lambda>(name, col). col ! i) df) [0..<nrows df]"

text \<open>
  \<open>repr\<close> of the float \<open>m / 10 ^ e\<close>, which is also what pandas writes: the
  significant digits without trailing zeros, with the decimal point at its place, and in
  exponent form when the value is below \<open>0.0001\<close> or at least \<open>1e16\<close>.
  Here \<open>decpt\<close> places the point: the value is \<open>0.d\<^sub>1d\<^sub>2...\<close> times
  \<open>10 ^ decpt\<close>.
\<close>

definition strip_zeros :: "string \<Rightarrow> string" where
  "strip_zeros ds = rev (dropWhile (\<lambda>c. c = CHR ''0'') (rev ds))"

definition str_float :: "int \<Rightarrow> nat \<Rightarrow> string" where
  "str_float m e =
     (if m = 0 then ''0.0''
      else
        let all_digits = str_nat (nat \<bar>m\<bar>);
            ds = strip_zeros all_digits;
            decpt = int (length all_digits) - int e
        in (if m < 0 then ''-'' else []) @
           (if decpt \<le> - 4 \<or> 16 < decpt then
              take 1 ds @ (if 1 < length ds then ''.'' @ drop 1 ds else []) @ ''e'' @
              (if decpt - 1 < 0 then ''-'' else ''+'') @
              (if \<bar>decpt - 1\<bar> < 10 then ''0'' else []) @ str_nat (nat \<bar>decpt - 1\<bar>)
            else if decpt \<le> 0 then ''0.'' @ replicate (nat (- decpt)) (CHR ''0'') @ ds
            else if int (length ds) \<le> decpt
              then ds @ replicate (nat decpt - length ds) (CHR ''0'') @ ''.0''
            else take (nat decpt) ds @ ''.'' @ drop (nat decpt) ds))"

fun str_cell :: "cell \<Rightarrow> string" where
  "str_cell (StrCell s) = s"
| "str_cell (IntCell i) = str_int i"
| "str_cell (FloatCell m e) = str_float m e"

text \<open>
  \<open>to_csv(index=False)\<close> with the defaults of pandas: a header line, fields separated
  by commas, minimal quoting with the double quote (a field is quoted when it holds the
  separator, the quote character or a line break; a quote inside it is doubled; a line
  made of one empty field is written as two quotes). Every line ends with
  \<open>os.linesep\<close>, a parameter here: the line feed, or carriage return and line feed on
  Windows.
\<close>

definition quotechar :: char where
  "quotechar = CHR 0x22"

definition needs_quoting :: "string \<Rightarrow> bool" where
  "needs_quoting s =
     list_ex (\<lambda>c. c = CHR '','' \<or> c = quotechar \<or> c = CHR 0x0A \<or> c = CHR 0x0D) s"

definition csv_field :: "string \<Rightarrow> string" where
  "csv_field s =
     (if needs_quoting s
      then quotechar # concat (map (\<lambda>c. if c = quotechar then [c, c] else [c]) s) @ [quotechar]
      else s)"

fun join :: "string \<Rightarrow> string list \<Rightarrow> string" where
  "join sep [] = []"
| "join sep [s] = s"
| "join sep (s # t # rest) = s @ sep @ join sep (t # rest)"

definition csv_line :: "string list \<Rightarrow> string" where
  "csv_line fs =
     (if fs = [[]] then [quotechar, quotechar] else join '','' (map csv_field fs))"

definition to_csv :: "string \<Rightarrow> dataframe \<Rightarrow> string" where
  "to_csv linesep df =
     concat (map (\<lambda>fs. csv_line fs @ linesep)
               (columns df # map (map str_cell) (rows df)))"

text \<open>The characters that minimal quoting leaves alone.\<close>

definition plain_char :: "char \<Rightarrow> bool" where
  "plain_char c \<longleftrightarrow>
     c \<noteq> CHR '','' \<and> c \<noteq> quotechar \<and> c \<noteq> CHR 0x0A \<and> c \<noteq> CHR 0x0D"

subsection \<open>Reading the export back\<close>

text \<open>
  Modelled from the spec: the script never reads a CSV text, so the reader that the
  round-trip property parses the export with is missing from the source. It is the
  reader of the same format: fields separated by commas, lines ended by a line feed, a
  carriage return or both, a field in double quotes taken literally with a doubled quote
  standing for one quote. The first line read is the header; all cells come back as text.
\<close>

datatype pstate = FieldStart | InField | InQuoted | QuoteSeen | AfterCR

type_synonym reader = "pstate \<times> string \<times> string list \<times> string list list"

fun csv_step :: "reader option \<Rightarrow> char \<Rightarrow> reader option" where
  "csv_step None c = None"
| "csv_step (Some (st, fld, rec, recs)) c =
     (if st = InQuoted then
        (if c = quotechar then Some (QuoteSeen, fld, rec, recs)
         else Some (InQuoted, fld @ [c], rec, recs))
      else if st = QuoteSeen \<and> c = quotechar then Some (InQuoted, fld @ [c], rec, recs)
      else if st = AfterCR \<and> c = CHR 0x0A then Some (FieldStart, fld, rec, recs)
      else if c = CHR '','' then Some (FieldStart, [], rec @ [fld], recs)
      else if c = CHR 0x0A then Some (FieldStart, [], [], recs @ [rec @ [fld]])
      else if c = CHR 0x0D then Some (AfterCR, [], [], recs @ [rec @ [fld]])
      else if st = QuoteSeen then None
      else if c = quotechar \<and> st \<noteq> InField then Some (InQuoted, fld, rec, recs)
      else Some (InField, fld @ [c], rec, recs))"

definition csv_finish :: "reader option \<Rightarrow> string list list option" where
  "csv_finish r =
     (case r of
        None \<Rightarrow> None
      | Some (st, fld, rec, recs) \<Rightarrow>
          if st = InQuoted then None
          else if (st = FieldStart \<or> st = AfterCR) \<and> rec = [] then Some recs
          else Some (recs @ [rec @ [fld]]))"

definition read_csv :: "string \<Rightarrow> (string list \<times> string list list) option" where
  "read_csv s =
     (case csv_finish (foldl csv_step (Some (FieldStart, [], [], [])) s) of
        Some (header # body) \<Rightarrow> Some (header, body)
      | _ \<Rightarrow> None)"

subsection \<open>The query examples\<close>

record query_example =
  title :: string
  description :: string
  query :: string
  result :: dataframe

definition queries :: "query_example list" where
  "queries = [
     \<lparr>title = ''Find all orders by a customer'',
      description = ''Retrieve all orders placed by customer '' @ [CHR 0x22] @ ''Alice'' @ [CHR 0x22],
      query = ''MATCH (c:Customer {name: 'Alice'})-[:PLACES]->(o:Order)\<newline>RETURN c.name, o.order_id, o.total_amount, o.status'',
      result = [
        (''customer'', [StrCell ''Alice'', StrCell ''Alice'']),
        (''order_id'', [StrCell ''ORD001'', StrCell ''ORD005'']),
        (''amount'', [IntCell 450, IntCell 320]),
        (''status'', [StrCell ''delivered'', StrCell ''in_transit''])]\<rparr>,
     \<lparr>title = ''Find dishes from a restaurant'',
      description = ''Get all dishes served by '' @ [CHR 0x22] @ ''Spice Garden'' @ [CHR 0x22],
      query = ''MATCH (r:Restaurant {name: 'Spice Garden'})-[:SERVES]->(d:Dish)\<newline>RETURN r.name, d.name, d.price, d.category'',
      result = [
        (''restaurant'', [StrCell ''Spice Garden'', StrCell ''Spice Garden'']),
        (''dish'', [StrCell ''Butter Chicken'', StrCell ''Paneer Tikka'']),
        (''price'', [IntCell 280, IntCell 220]),
        (''category'', [StrCell ''Main Course'', StrCell ''Appetizer''])]\<rparr>,
     \<lparr>title = ''Track order delivery chain'',
      description = ''Complete delivery chain for an order'',
      query = ''MATCH (c:Customer)-[:PLACES]->(o:Order)-[:FROM]->(r:Restaurant),\<newline>      (o)-[:CONTAINS]->(d:Dish),\<newline>      (dp:DeliveryPerson)-[:DELIVERS]->(o)\<newline>WHERE o.order_id = 'ORD001'\<newline>RETURN c.name, r.name, d.name, dp.name, o.status'',
      result = [
        (''customer'', [StrCell ''Alice'']),
        (''restaurant'', [StrCell ''Spice Garden'']),
        (''dish'', [StrCell ''Butter Chicken'']),
        (''delivery_person'', [StrCell ''Raj'']),
        (''status'', [StrCell ''delivered''])]\<rparr>,
     \<lparr>title = ''Find highly rated restaurants'',
      description = ''Restaurants with average rating > 4.5'',
      query = ''MATCH (c:Customer)-[r:REVIEWS]->(rest:Restaurant)\<newline>WHERE r.rating >= 4.5\<newline>RETURN rest.name, rest.cuisine_type, AVG(r.rating) as avg_rating\<newline>ORDER BY avg_rating DESC'',
      result = [
        (''restaurant'', [StrCell ''Spice Garden'', StrCell ''Pizza Paradise'']),
        (''cuisine'', [StrCell ''Indian'', StrCell ''Italian'']),
        (''avg_rating'', [FloatCell 47 1, FloatCell 46 1])]\<rparr>,
     \<lparr>title = ''Delivery person performance'',
      description = ''Find all orders delivered by a specific person'',
      query = ''MATCH (dp:DeliveryPerson {name: 'Raj'})-[del:DELIVERS]->(o:Order)\<newline>RETURN dp.name, COUNT(o) as total_deliveries, \<newline>       AVG(del.delivery_time) as avg_delivery_time'',
      result = [
        (''delivery_person'', [StrCell ''Raj'']),
        (''total_deliveries'', [IntCell 15]),
        (''avg_delivery_time'', [StrCell ''28 mins''])]\<rparr>,
     \<lparr>title = ''Customer preferences'',
      description = ''Find most ordered dish categories by customer'',
      query = ''MATCH (c:Customer {name: 'Alice'})-[:PLACES]->(o:Order)-[:CONTAINS]->(d:Dish)\<newline>RETURN d.category, COUNT(d) as order_count\<newline>ORDER BY order_count DESC'',
      result = [
        (''category'', [StrCell ''Main Course'', StrCell ''Dessert'', StrCell ''Appetizer'']),
        (''count'', [IntCell 8, IntCell 5, IntCell 3])]\<rparr>]"

subsection \<open>The Queries page\<close>

text \<open>
  \<open>s.split('.')\<close>: the pieces of \<open>s\<close> between full stops; there is always a first
  piece.
\<close>

fun split :: "char \<Rightarrow> string \<Rightarrow> string list" where
  "split sep [] = [[]]"
| "split sep (c # cs) =
     (if c = sep then [] # split sep cs
      else (case split sep cs of [] \<Rightarrow> [[c]] | piece # pieces \<Rightarrow> (c # piece) # pieces))"

definition first_piece :: "string list \<Rightarrow> py_error + string" where
  "first_piece pieces = (case pieces of [] \<Rightarrow> Inl IndexError | p # ps \<Rightarrow> Inr p)"

text \<open>
  \<open>int(s)\<close> on ASCII text: white space around the literal (tab, line feed, vertical
  tab, form feed, carriage return, blank) is dropped, a sign may come
  first, then decimal digits, where single underscores may stand between digits. Anything
  else raises \<open>ValueError\<close>.
\<close>

definition is_space :: "char \<Rightarrow> bool" where
  "is_space c = (c \<in> set [CHR 0x09, CHR 0x0A, CHR 0x0B, CHR 0x0C, CHR 0x0D, CHR 0x20])"

definition strip :: "string \<Rightarrow> string" where
  "strip s = rev (dropWhile is_space (rev (dropWhile is_space s)))"

definition digit_val :: "char \<Rightarrow> nat option" where
  "digit_val c = map_of (zip ''0123456789'' [0, 1, 2, 3, 4, 5, 6, 7, 8, 9]) c"

fun digits_ok :: "bool \<Rightarrow> string \<Rightarrow> bool" where
  "digits_ok after_digit [] = after_digit"
| "digits_ok after_digit (c # cs) =
     (if digit_val c \<noteq> None then digits_ok True cs
      else if c = CHR ''_'' \<and> after_digit then digits_ok False cs
      else False)"

definition dec_value :: "string \<Rightarrow> nat" where
  "dec_value s = foldl (\<lambda>a c. case digit_val c of None \<Rightarrow> a | Some d \<Rightarrow> 10 * a + d) 0 s"

definition py_int :: "string \<Rightarrow> py_error + int" where
  "py_int s =
     (let t = strip s;
          negative = (t \<noteq> [] \<and> hd t = CHR ''-'');
          body = (if t \<noteq> [] \<and> (hd t = CHR ''-'' \<or> hd t = CHR ''+'') then tl t else t)
      in if digits_ok False body
         then Inr (if negative then - int (dec_value body) else int (dec_value body))
         else Inl (ValueError s))"

text \<open>\<open>xs[i]\<close>: an index below zero counts from the end of the list.\<close>

definition py_index :: "'a list \<Rightarrow> int \<Rightarrow> py_error + 'a" where
  "py_index xs i =
     (if 0 \<le> i \<and> i < int (length xs) then Inr (xs ! nat i)
      else if i < 0 \<and> - int (length xs) \<le> i then Inr (xs ! nat (int (length xs) + i))
      else Inl IndexError)"

text \<open>
  The options of the select box, the index read back from the option chosen (line 275 of
  the script), and what the branch shows for it: title, description, query text, result
  table and the download button with its data and file name.
\<close>

definition query_options :: "query_example list \<Rightarrow> string list" where
  "query_options qs = map (\<lambda>(i, q). str_int (int i + 1) @ ''. '' @ title q) (enumerate 0 qs)"

definition query_idx_of :: "string \<Rightarrow> py_error + int" where
  "query_idx_of query_option =
     (case first_piece (split (CHR ''.'') query_option) of
        Inl e \<Rightarrow> Inl e
      | Inr p \<Rightarrow> (case py_int p of Inl e \<Rightarrow> Inl e | Inr n \<Rightarrow> Inr (n - 1)))"

record download_button =
  data :: string
  file_name :: string
  mime :: string

record queries_view =
  shown_title :: string
  shown_description :: string
  shown_query :: string
  shown_result :: dataframe
  download :: download_button

definition queries_page :: "string \<Rightarrow> query_example list \<Rightarrow> string \<Rightarrow> py_error + queries_view" where
  "queries_page linesep qs query_option =
     (case query_idx_of query_option of
        Inl e \<Rightarrow> Inl e
      | Inr query_idx \<Rightarrow>
          (case py_index qs query_idx of
             Inl e \<Rightarrow> Inl e
           | Inr selected_query \<Rightarrow>
               Inr \<lparr>shown_title = title selected_query,
                    shown_description = description selected_query,
                    shown_query = query selected_query,
                    shown_result = result selected_query,
                    download = \<lparr>data = to_csv linesep (result selected_query),
                                file_name = ''query_'' @ str_int (query_idx + 1) @ ''_result.csv'',
                                mime = ''text/csv''\<rparr>\<rparr>))"

subsection \<open>Inputs for running the Visualization page\<close>

text \<open>
  A layout that puts the vertices on a line, in the order of the graph. It stands in for
  \<open>nx.spring_layout\<close> where the page is evaluated on a concrete registry; the page
  never inspects the positions.
\<close>

definition line_layout :: "digraph \<Rightarrow> (string \<times> int \<times> int) list" where
  "line_layout G = map (\<lambda>(i, n). (n, (int i, 0))) (enumerate 0 (G_nodes G))"

text \<open>
  The colours written \<open>#rrggbb\<close>. matplotlib takes every string of this form for a
  colour (and others besides); all colours of the registries evaluated below have this
  form, so on them the page does with this check what it does with matplotlib's own.
\<close>

definition hex_color :: "string \<Rightarrow> bool" where
  "hex_color c =
     (case c of
        [] \<Rightarrow> False
      | h # ds \<Rightarrow> h = CHR ''#'' \<and> length ds = 6 \<and>
                 list_all (\<lambda>d. d \<in> set ''0123456789abcdefABCDEF'') ds)"

text \<open>
  The registry of the script with one more edge type, whose source \<open>Courier\<close> is the
  \<open>type\<close> of no node type.
\<close>

definition broken_model :: registry where
  "broken_model = graph_model\<lparr>edges := edges graph_model @
     [\<lparr>edge_from = ''Courier'', edge_to = ''Order'', edge_relationship = ''DELIVERS'',
       edge_properties = []\<rparr>]\<rparr>"

section \<open>The registry\<close>

lemma graph_model_node_names:
  "map node_type (nodes graph_model) =
     [''Customer'', ''Restaurant'', ''Dish'', ''DeliveryPerson'', ''Order'']"
  by (simp add: graph_model_def)

lemma graph_model_edge_pairs:
  "map (\<lambda>e. (edge_from e, edge_to e)) (edges graph_model) =
     [(''Customer'', ''Order''), (''Order'', ''Restaurant''), (''Order'', ''Dish''),
      (''DeliveryPerson'', ''Order''), (''Restaurant'', ''Dish''), (''Customer'', ''Restaurant'')]"
  by (simp add: graph_model_def)

text \<open>
  C7. The registry literal holds exactly five node types, named Customer, Restaurant,
  Dish, DeliveryPerson and Order, and exactly six edge types, with the relationship labels
  PLACES, FROM, CONTAINS, DELIVERS, SERVES and REVIEWS; the Overview page reports the
  node-type count 5 and the edge-type count 6 (literals of the script that agree with the
  lengths of the two lists).
\<close>

theorem registry_contents_and_overview_counts:
  "map node_type (nodes graph_model) =
     [''Customer'', ''Restaurant'', ''Dish'', ''DeliveryPerson'', ''Order''] \<and>
   length (nodes graph_model) = 5 \<and>
   map edge_relationship (edges graph_model) =
     [''PLACES'', ''FROM'', ''CONTAINS'', ''DELIVERS'', ''SERVES'', ''REVIEWS''] \<and>
   length (edges graph_model) = 6 \<and>
   map metric_value (take 2 overview_metrics) = [''5'', ''6''] \<and>
   map metric_value (take 2 overview_metrics) =
     [str_int (int (length (nodes graph_model))), str_int (int (length (edges graph_model)))]"
  by (simp add: graph_model_def overview_metrics_def str_int_def str_nat.simps digit_char_def)

text \<open>
  C8. For every edge type of the registry literal, its source name (\<open>from\<close>) and its
  target name (\<open>to\<close>) are both the \<open>type\<close> of some node type of the registry: the
  hardcoded model satisfies referential integrity of edge endpoints.
\<close>

theorem edge_endpoints_are_node_types:
  "\<forall>e \<in> set (edges graph_model).
     edge_from e \<in> set (map node_type (nodes graph_model)) \<and>
     edge_to e \<in> set (map node_type (nodes graph_model))"
  by (simp add: graph_model_def)

theorem edge_endpoints_are_node_types_witness:
  "edges graph_model ! 3 \<in> set (edges graph_model) \<and>
   edge_from (edges graph_model ! 3) = ''DeliveryPerson'' \<and>
   edge_to (edges graph_model ! 3) = ''Order'' \<and>
   edge_from (edges graph_model ! 3) \<in> set (map node_type (nodes graph_model)) \<and>
   edge_to (edges graph_model ! 3) \<in> set (map node_type (nodes graph_model))"
proof -
  have mem: "edges graph_model ! 3 \<in> set (edges graph_model)"
    by (simp add: graph_model_def)
  have "edge_from (edges graph_model ! 3) \<in> set (map node_type (nodes graph_model)) \<and>
        edge_to (edges graph_model ! 3) \<in> set (map node_type (nodes graph_model))"
    using edge_endpoints_are_node_types mem by (rule bspec)
  moreover have "edge_from (edges graph_model ! 3) = ''DeliveryPerson'' \<and>
                 edge_to (edges graph_model ! 3) = ''Order''"
    by (simp add: graph_model_def)
  ultimately show ?thesis using mem by blast
qed

section \<open>The edge labels of the Visualization page\<close>

lemma update_fresh: "k \<notin> fst ` set al \<Longrightarrow> AList.update k v al = al @ [(k, v)]"
  by (induction al) auto

lemma add_edges_labels:
  "distinct (map fst L @ map (\<lambda>e. (edge_from e, edge_to e)) es) \<Longrightarrow>
   snd (add_edges es (G, L)) =
     L @ map (\<lambda>e. ((edge_from e, edge_to e), edge_relationship e)) es"
proof (induction es arbitrary: G L)
  case Nil
  then show ?case by simp
next
  case (Cons e es)
  let ?k = "(edge_from e, edge_to e)"
  from Cons.prems have fresh: "?k \<notin> fst ` set L" by auto
  have upd: "AList.update ?k (edge_relationship e) L = L @ [(?k, edge_relationship e)]"
    using fresh by (rule update_fresh)
  from Cons.prems have "distinct (map fst (L @ [(?k, edge_relationship e)]) @
      map (\<lambda>e. (edge_from e, edge_to e)) es)" by auto
  from Cons.IH[OF this] show ?case by (simp add: upd)
qed

lemma edge_labels_distinct:
  "distinct (map (\<lambda>e. (edge_from e, edge_to e)) (edges m)) \<Longrightarrow>
   edge_labels_of m = map (\<lambda>e. ((edge_from e, edge_to e), edge_relationship e)) (edges m)"
  using add_edges_labels[of "[]" "edges m"] by (simp add: edge_labels_of_def)

lemma graph_model_pairs_distinct:
  "distinct (map (\<lambda>e. (edge_from e, edge_to e)) (edges graph_model))"
  unfolding graph_model_edge_pairs by simp

text \<open>
  C10. The six (from, to) pairs of the edge types of the registry are pairwise distinct;
  so the dictionary \<open>edge_labels\<close> of the Visualization page, keyed on the pair, has
  exactly one entry per edge type, in the order of the edges, and keeps each of the six
  relationship labels (no later edge overwrites an earlier one).
\<close>

theorem edge_labels_keep_every_relationship:
  "distinct (map (\<lambda>e. (edge_from e, edge_to e)) (edges graph_model)) \<and>
   edge_labels_of graph_model =
     map (\<lambda>e. ((edge_from e, edge_to e), edge_relationship e)) (edges graph_model) \<and>
   length (edge_labels_of graph_model) = 6 \<and>
   map snd (edge_labels_of graph_model) =
     [''PLACES'', ''FROM'', ''CONTAINS'', ''DELIVERS'', ''SERVES'', ''REVIEWS'']"
proof -
  have labels: "edge_labels_of graph_model =
      map (\<lambda>e. ((edge_from e, edge_to e), edge_relationship e)) (edges graph_model)"
    using graph_model_pairs_distinct by (rule edge_labels_distinct)
  have "map edge_relationship (edges graph_model) =
      [''PLACES'', ''FROM'', ''CONTAINS'', ''DELIVERS'', ''SERVES'', ''REVIEWS'']"
    by (simp add: graph_model_def)
  moreover have "length (edges graph_model) = 6"
    by (simp add: graph_model_def)
  ultimately show ?thesis
    using graph_model_pairs_distinct by (simp add: labels comp_def)
qed

section \<open>The select box of the Queries page\<close>

text \<open>
  The index is recovered from an option for every list of queries, whatever its length and
  its titles: the decimal digits of a number hold no full stop, no sign and no white
  space, and \<open>int\<close> reads them back as the number.
\<close>

lemma digit_val_nth: "k < 10 \<Longrightarrow> digit_val (''0123456789'' ! k) = Some k"
proof -
  assume "k < 10"
  then have "k = 0 \<or> k = 1 \<or> k = 2 \<or> k = 3 \<or> k = 4 \<or> k = 5 \<or> k = 6 \<or> k = 7 \<or> k = 8 \<or> k = 9"
    by arith
  then show ?thesis
    by (elim disjE) (simp_all add: digit_val_def)
qed

lemma digit_val_digit_char: "digit_val (digit_char d) = Some (d mod 10)"
  by (simp add: digit_char_def digit_val_nth)

lemma digit_val_others:
  "digit_val (CHR ''-'') = None" "digit_val (CHR ''+'') = None" "digit_val (CHR ''.'') = None"
  by (simp_all add: digit_val_def)

lemma space_no_digit: "is_space c \<Longrightarrow> digit_val c = None"
  unfolding is_space_def by (auto simp: digit_val_def)

lemma str_nat_digits: "\<forall>c \<in> set (str_nat n). digit_val c \<noteq> None"
proof (induction n rule: str_nat.induct)
  case (1 n)
  show ?case
  proof (cases "n < 10")
    case True
    then show ?thesis by (subst str_nat.simps) (simp add: digit_val_digit_char)
  next
    case False
    with 1 show ?thesis by (subst str_nat.simps) (simp add: digit_val_digit_char)
  qed
qed

lemma str_nat_nonempty: "str_nat n \<noteq> []"
  by (subst str_nat.simps) simp

lemma digits_ok_digits:
  "\<forall>c \<in> set ds. digit_val c \<noteq> None \<Longrightarrow> digits_ok b ds = (ds \<noteq> [] \<or> b)"
  by (induction ds arbitrary: b) auto

lemma dec_value_snoc:
  "digit_val c = Some d \<Longrightarrow> dec_value (ds @ [c]) = 10 * dec_value ds + d"
  by (simp add: dec_value_def)

lemma dec_value_single: "digit_val c = Some d \<Longrightarrow> dec_value [c] = d"
  by (simp add: dec_value_def)

lemma dec_value_str_nat: "dec_value (str_nat n) = n"
proof (induction n rule: str_nat.induct)
  case (1 n)
  show ?case
  proof (cases "n < 10")
    case True
    then show ?thesis
      by (subst str_nat.simps) (simp add: dec_value_single[OF digit_val_digit_char])
  next
    case False
    with 1 have "dec_value (str_nat (n div 10)) = n div 10" by simp
    with False show ?thesis
      by (subst str_nat.simps) (simp add: dec_value_snoc[OF digit_val_digit_char])
  qed
qed

lemma digit_not_space: "digit_val c \<noteq> None \<Longrightarrow> \<not> is_space c"
  by (auto dest: space_no_digit)

lemma strip_no_space: "\<forall>c \<in> set s. \<not> is_space c \<Longrightarrow> strip s = s"
proof (cases s)
  case Nil
  then show ?thesis by (simp add: strip_def)
next
  case (Cons x xs)
  assume ns: "\<forall>c \<in> set s. \<not> is_space c"
  with Cons have 1: "dropWhile is_space s = s" by simp
  from Cons have "rev s \<noteq> []" by simp
  moreover have "hd (rev s) \<in> set s"
    using Cons by (metis hd_in_set calculation set_rev)
  ultimately have "dropWhile is_space (rev s) = rev s"
    using ns by (simp add: dropWhile_eq_self_iff)
  with 1 show ?thesis by (simp add: strip_def)
qed

lemma py_int_str_nat: "py_int (str_nat n) = Inr (int n)"
proof -
  let ?s = "str_nat n"
  have digs: "\<forall>c \<in> set ?s. digit_val c \<noteq> None" by (rule str_nat_digits)
  then have strip: "strip ?s = ?s"
    using digit_not_space strip_no_space by blast
  have ne: "?s \<noteq> []" by (rule str_nat_nonempty)
  then have "hd ?s \<in> set ?s" by simp
  with digs have "digit_val (hd ?s) \<noteq> None" by blast
  then have sign: "hd ?s \<noteq> CHR ''-''" "hd ?s \<noteq> CHR ''+''"
    using digit_val_others by auto
  have ok: "digits_ok False ?s" using digits_ok_digits[OF digs, of False] ne by simp
  show ?thesis
    by (simp add: py_int_def strip sign ok dec_value_str_nat Let_def)
qed

lemma split_never_empty: "split sep s \<noteq> []"
  by (induction s) (auto split: list.splits)

lemma first_piece_split:
  "sep \<notin> set xs \<Longrightarrow> first_piece (split sep (xs @ sep # rest)) = Inr xs"
proof (induction xs)
  case Nil
  then show ?case by (simp add: first_piece_def)
next
  case (Cons x xs)
  then have IH: "first_piece (split sep (xs @ sep # rest)) = Inr xs" by simp
  from Cons.prems have "x \<noteq> sep" by auto
  with IH show ?case
    by (auto simp: first_piece_def split: list.splits)
qed

lemma str_nat_no_stop: "CHR ''.'' \<notin> set (str_nat n)"
  using str_nat_digits[of n] digit_val_others(3) by auto

lemma query_options_nth:
  "i < length qs \<Longrightarrow> query_options qs ! i = str_nat (Suc i) @ ''. '' @ title (qs ! i)"
  by (simp add: query_options_def nth_enumerate_eq str_int_def nat_add_distrib)

lemma query_idx_of_option:
  "i < length qs \<Longrightarrow> query_idx_of (query_options qs ! i) = Inr (int i)"
  by (simp add: query_options_nth query_idx_of_def first_piece_split[OF str_nat_no_stop]
      py_int_str_nat)

lemma py_index_in_range: "i < length qs \<Longrightarrow> py_index qs (int i) = Inr (qs ! i)"
  by (simp add: py_index_def)

lemma queries_page_option:
  "i < length qs \<Longrightarrow>
   queries_page linesep qs (query_options qs ! i) =
     Inr \<lparr>shown_title = title (qs ! i),
          shown_description = description (qs ! i),
          shown_query = query (qs ! i),
          shown_result = result (qs ! i),
          download = \<lparr>data = to_csv linesep (result (qs ! i)),
                      file_name = ''query_'' @ str_nat (Suc i) @ ''_result.csv'',
                      mime = ''text/csv''\<rparr>\<rparr>"
  by (simp add: queries_page_def query_idx_of_option py_index_in_range str_int_def nat_add_distrib)

lemma option_gives_valid_index:
  "\<forall>opt \<in> set (query_options qs).
     \<exists>idx q. query_idx_of opt = Inr idx \<and> 0 \<le> idx \<and> idx < int (length qs) \<and>
       py_index qs idx = Inr q \<and> q = qs ! nat idx \<and>
       opt = str_int (idx + 1) @ ''. '' @ title q"
proof
  fix opt assume "opt \<in> set (query_options qs)"
  then obtain i where i: "i < length qs" "opt = query_options qs ! i"
    by (auto simp: in_set_conv_nth query_options_def)
  have "query_idx_of opt = Inr (int i)" using i by (simp add: query_idx_of_option)
  moreover have "py_index qs (int i) = Inr (qs ! i)" using i by (simp add: py_index_in_range)
  moreover have "opt = str_int (int i + 1) @ ''. '' @ title (qs ! i)"
    using i by (simp add: query_options_nth str_int_def nat_add_distrib)
  ultimately show "\<exists>idx q. query_idx_of opt = Inr idx \<and> 0 \<le> idx \<and>
       idx < int (length qs) \<and> py_index qs idx = Inr q \<and> q = qs ! nat idx \<and>
       opt = str_int (idx + 1) @ ''. '' @ title q"
    using i(1) by (intro exI[of _ "int i"] exI[of _ "qs ! i"]) simp
qed

lemma query_options_queries:
  "query_options queries =
     [''1. Find all orders by a customer'', ''2. Find dishes from a restaurant'',
      ''3. Track order delivery chain'', ''4. Find highly rated restaurants'',
      ''5. Delivery person performance'', ''6. Customer preferences'']"
  by (simp add: query_options_def queries_def enumerate_eq_zip str_int_def str_nat.simps
      digit_char_def)

lemma length_queries: "length queries = 6"
  by (simp add: queries_def)

text \<open>
  C9. For every option of the select box of the Queries page (each is the 1-based index,
  a full stop, a blank and the title of a query of the fixed list), the index the page
  reads back from the text before the first full stop is a valid 0-based index into the
  list, and the query it selects is the one whose title stands in the option: no index
  out of range can come from the select box.
\<close>

theorem selected_option_gives_valid_index:
  "\<forall>opt \<in> set (query_options queries).
     \<exists>idx q. query_idx_of opt = Inr idx \<and> 0 \<le> idx \<and> idx < int (length queries) \<and>
       py_index queries idx = Inr q \<and> q = queries ! nat idx \<and>
       opt = str_int (idx + 1) @ ''. '' @ title q"
  by (rule option_gives_valid_index)

theorem selected_option_gives_valid_index_witness:
  "''3. Track order delivery chain'' \<in> set (query_options queries) \<and>
   (\<exists>idx q. query_idx_of ''3. Track order delivery chain'' = Inr idx \<and> 0 \<le> idx \<and>
       idx < int (length queries) \<and> py_index queries idx = Inr q \<and> q = queries ! nat idx \<and>
       ''3. Track order delivery chain'' = str_int (idx + 1) @ ''. '' @ title q)"
proof -
  have mem: "''3. Track order delivery chain'' \<in> set (query_options queries)"
    unfolding query_options_queries by simp
  from selected_option_gives_valid_index mem
  have "\<exists>idx q. query_idx_of ''3. Track order delivery chain'' = Inr idx \<and> 0 \<le> idx \<and>
       idx < int (length queries) \<and> py_index queries idx = Inr q \<and> q = queries ! nat idx \<and>
       ''3. Track order delivery chain'' = str_int (idx + 1) @ ''. '' @ title q"
    by (rule bspec)
  with mem show ?thesis by blast
qed

section \<open>The export of a result table\<close>

text \<open>
  The reader undoes \<open>to_csv\<close> on every table with at least one column, whatever its
  cells hold: a field without special characters is read as it stands, a quoted field is
  read back with its doubled quotes halved, and each line end closes one record.
\<close>

lemma needs_quoting_iff: "needs_quoting s \<longleftrightarrow> (\<exists>c \<in> set s. \<not> plain_char c)"
  by (auto simp: needs_quoting_def plain_char_def list_ex_iff)

lemma step_plain:
  "plain_char c \<Longrightarrow> st = FieldStart \<or> st = InField \<Longrightarrow>
   csv_step (Some (st, f, r, rs)) c = Some (InField, f @ [c], r, rs)"
  by (auto simp: plain_char_def)

lemma step_open: "csv_step (Some (FieldStart, f, r, rs)) quotechar = Some (InQuoted, f, r, rs)"
  by (simp add: quotechar_def)

lemma step_quoted:
  "csv_step (Some (InQuoted, f, r, rs)) c =
     (if c = quotechar then Some (QuoteSeen, f, r, rs) else Some (InQuoted, f @ [c], r, rs))"
  by simp

lemma step_doubled:
  "csv_step (Some (QuoteSeen, f, r, rs)) quotechar = Some (InQuoted, f @ [quotechar], r, rs)"
  by simp

lemma step_comma:
  "st = FieldStart \<or> st = InField \<or> st = QuoteSeen \<Longrightarrow>
   csv_step (Some (st, f, r, rs)) (CHR '','') = Some (FieldStart, [], r @ [f], rs)"
  by (auto simp: quotechar_def)

lemma step_lf:
  "st = FieldStart \<or> st = InField \<or> st = QuoteSeen \<Longrightarrow>
   csv_step (Some (st, f, r, rs)) (CHR 0x0A) = Some (FieldStart, [], [], rs @ [r @ [f]])"
  by (auto simp: quotechar_def)

lemma step_cr:
  "st = FieldStart \<or> st = InField \<or> st = QuoteSeen \<Longrightarrow>
   csv_step (Some (st, f, r, rs)) (CHR 0x0D) = Some (AfterCR, [], [], rs @ [r @ [f]])"
  by (auto simp: quotechar_def)

lemma step_cr_lf:
  "csv_step (Some (AfterCR, f, r, rs)) (CHR 0x0A) = Some (FieldStart, f, r, rs)"
  by (simp add: quotechar_def)

lemma read_plain:
  "\<forall>c \<in> set s. plain_char c \<Longrightarrow> st = FieldStart \<or> st = InField \<Longrightarrow>
   foldl csv_step (Some (st, f, r, rs)) s =
     Some (if s = [] then st else InField, f @ s, r, rs)"
proof (induction s arbitrary: st f)
  case Nil
  then show ?case by simp
next
  case (Cons c s)
  from Cons.prems have "csv_step (Some (st, f, r, rs)) c = Some (InField, f @ [c], r, rs)"
    by (intro step_plain) auto
  moreover from Cons.prems have "foldl csv_step (Some (InField, f @ [c], r, rs)) s =
      Some (if s = [] then InField else InField, (f @ [c]) @ s, r, rs)"
    by (intro Cons.IH) auto
  ultimately show ?case by (simp del: csv_step.simps)
qed

lemma read_escaped:
  "foldl csv_step (Some (InQuoted, f, r, rs))
     (concat (map (\<lambda>c. if c = quotechar then [c, c] else [c]) s)) =
   Some (InQuoted, f @ s, r, rs)"
proof (induction s arbitrary: f)
  case Nil
  then show ?case by simp
next
  case (Cons c s)
  show ?case
  proof (cases "c = quotechar")
    case True
    then show ?thesis
      using Cons.IH[of "f @ [quotechar]"]
      by (simp add: step_quoted step_doubled del: csv_step.simps)
  next
    case False
    then show ?thesis
      using Cons.IH[of "f @ [c]"]
      by (simp add: step_quoted del: csv_step.simps)
  qed
qed

lemma read_field:
  "\<exists>st. (st = FieldStart \<or> st = InField \<or> st = QuoteSeen) \<and>
     foldl csv_step (Some (FieldStart, [], r, rs)) (csv_field s) = Some (st, s, r, rs)"
proof (cases "needs_quoting s")
  case True
  have "foldl csv_step (Some (FieldStart, [], r, rs)) (csv_field s) = Some (QuoteSeen, s, r, rs)"
    using True read_escaped[of "[]" r rs s]
    by (simp add: csv_field_def step_open step_quoted del: csv_step.simps)
  then show ?thesis by blast
next
  case False
  then have "\<forall>c \<in> set s. plain_char c" by (simp add: needs_quoting_iff)
  from read_plain[OF this, of FieldStart "[]" r rs] False show ?thesis
    by (auto simp: csv_field_def)
qed

lemma read_joined:
  "fs \<noteq> [] \<Longrightarrow>
   \<exists>st. (st = FieldStart \<or> st = InField \<or> st = QuoteSeen) \<and>
     foldl csv_step (Some (FieldStart, [], r, rs)) (join '','' (map csv_field fs)) =
       Some (st, last fs, r @ butlast fs, rs)"
proof (induction fs arbitrary: r)
  case Nil
  then show ?case by simp
next
  case (Cons s fs)
  show ?case
  proof (cases fs)
    case Nil
    with read_field[of r rs s] show ?thesis by simp
  next
    case (Cons t ts)
    obtain st where st: "st = FieldStart \<or> st = InField \<or> st = QuoteSeen"
      "foldl csv_step (Some (FieldStart, [], r, rs)) (csv_field s) = Some (st, s, r, rs)"
      using read_field[of r rs s] by blast
    from Cons have "fs \<noteq> []" by simp
    from Cons.IH[OF this, of "r @ [s]"] obtain st' where
      st': "st' = FieldStart \<or> st' = InField \<or> st' = QuoteSeen"
      "foldl csv_step (Some (FieldStart, [], r @ [s], rs)) (join '','' (map csv_field fs)) =
         Some (st', last fs, (r @ [s]) @ butlast fs, rs)"
      by blast
    have "foldl csv_step (Some (FieldStart, [], r, rs)) (join '','' (map csv_field (s # fs))) =
        Some (st', last (s # fs), r @ butlast (s # fs), rs)"
      using Cons st(2) st'(2) step_comma[OF st(1), of s r rs]
      by (simp del: csv_step.simps)
    with st'(1) show ?thesis by blast
  qed
qed

lemma read_line:
  "fs \<noteq> [] \<Longrightarrow>
   \<exists>st. (st = FieldStart \<or> st = InField \<or> st = QuoteSeen) \<and>
     foldl csv_step (Some (FieldStart, [], [], rs)) (csv_line fs) =
       Some (st, last fs, butlast fs, rs)"
proof (cases "fs = [[]]")
  case True
  then have "foldl csv_step (Some (FieldStart, [], [], rs)) (csv_line fs) =
      Some (QuoteSeen, last fs, butlast fs, rs)"
    by (simp add: csv_line_def step_open step_quoted del: csv_step.simps)
  then show ?thesis by blast
next
  case False
  assume "fs \<noteq> []"
  from read_joined[OF this, of "[]" rs] False show ?thesis
    by (simp add: csv_line_def)
qed

lemma read_line_end:
  assumes "linesep = [CHR 0x0A] \<or> linesep = [CHR 0x0D, CHR 0x0A]" and "fs \<noteq> []"
  shows "foldl csv_step (Some (FieldStart, [], [], rs)) (csv_line fs @ linesep) =
     Some (FieldStart, [], [], rs @ [fs])"
proof -
  obtain st where st: "st = FieldStart \<or> st = InField \<or> st = QuoteSeen"
    "foldl csv_step (Some (FieldStart, [], [], rs)) (csv_line fs) =
       Some (st, last fs, butlast fs, rs)"
    using read_line[OF assms(2), of rs] by blast
  have fs: "butlast fs @ [last fs] = fs" using assms(2) by simp
  from assms(1) show ?thesis
  proof
    assume "linesep = [CHR 0x0A]"
    then show ?thesis
      using st(2) step_lf[OF st(1), of "last fs" "butlast fs" rs] fs
      by (simp del: csv_step.simps)
  next
    assume "linesep = [CHR 0x0D, CHR 0x0A]"
    then show ?thesis
      using st(2) step_cr[OF st(1), of "last fs" "butlast fs" rs] fs
      by (simp add: step_cr_lf del: csv_step.simps)
  qed
qed

lemma read_lines:
  assumes "linesep = [CHR 0x0A] \<or> linesep = [CHR 0x0D, CHR 0x0A]"
  shows "\<forall>fs \<in> set ls. fs \<noteq> [] \<Longrightarrow>
     foldl csv_step (Some (FieldStart, [], [], rs))
       (concat (map (\<lambda>fs. csv_line fs @ linesep) ls)) =
     Some (FieldStart, [], [], rs @ ls)"
proof (induction ls arbitrary: rs)
  case Nil
  then show ?case by simp
next
  case (Cons fs ls)
  then have "fs \<noteq> []" by simp
  from read_line_end[OF assms this, of rs] Cons.IH[of "rs @ [fs]"] Cons.prems
  show ?case by (simp del: csv_step.simps)
qed

lemma rows_nonempty: "df \<noteq> [] \<Longrightarrow> \<forall>r \<in> set (map (map str_cell) (rows df)). r \<noteq> []"
  by (auto simp: rows_def)

lemma round_trip_any_table:
  assumes "linesep = [CHR 0x0A] \<or> linesep = [CHR 0x0D, CHR 0x0A]" and "df \<noteq> []"
  shows "read_csv (to_csv linesep df) = Some (columns df, map (map str_cell) (rows df))"
proof -
  let ?ls = "columns df # map (map str_cell) (rows df)"
  have "\<forall>fs \<in> set ?ls. fs \<noteq> []"
    using assms(2) rows_nonempty[OF assms(2)] by (simp add: columns_def)
  from read_lines[OF assms(1) this, of "[]"] show ?thesis
    by (simp add: read_csv_def to_csv_def csv_finish_def del: csv_step.simps)
qed

lemmas csv_eval = to_csv_def columns_def rows_def nrows_def csv_line_def csv_field_def
  needs_quoting_def quotechar_def str_int_def str_nat.simps digit_char_def str_float_def
  strip_zeros_def

text \<open>The text of some floats, point form and exponent form.\<close>

lemma str_float_samples:
  "str_float 47 1 = ''4.7''"
  "str_float 470 2 = ''4.7''"
  "str_float 50 1 = ''5.0''"
  "str_float (- 5) 2 = ''-0.05''"
  "str_float 1 5 = ''1e-05''"
  "str_float 15 8 = ''1.5e-07''"
  "str_float 1234567890123456 0 = ''1234567890123456.0''"
  "str_float 10000000000000000 0 = ''1e+16''"
  by (simp_all add: csv_eval)

lemma str_float_small: "str_float 1 4 = ''0.0001''"
  by (simp add: csv_eval numeral_3_eq_3)

lemma queries_have_columns: "\<forall>q \<in> set queries. result q \<noteq> []"
  by (simp add: queries_def)

lemma queries_need_no_quoting:
  "\<forall>q \<in> set queries. to_csv linesep (result q) =
     concat (map (\<lambda>r. join '','' r @ linesep)
               (columns (result q) # map (map str_cell) (rows (result q))))"
  by (simp add: queries_def csv_eval)

text \<open>
  C5. For every query example of the fixed list, writing its result table with
  \<open>to_csv\<close> and reading the text back gives a table with the same column names in the
  same order and the same cells, each cell as its text. The line end is the one of the
  host: line feed, or carriage return and line feed.
\<close>

theorem csv_export_round_trip:
  assumes "linesep = [CHR 0x0A] \<or> linesep = [CHR 0x0D, CHR 0x0A]"
  shows "\<forall>q \<in> set queries. read_csv (to_csv linesep (result q)) =
     Some (columns (result q), map (map str_cell) (rows (result q)))"
  using round_trip_any_table[OF assms] queries_have_columns by blast

theorem csv_export_round_trip_witness:
  "queries ! 3 \<in> set queries \<and>
   read_csv (to_csv [CHR 0x0A] (result (queries ! 3))) =
     Some ([''restaurant'', ''cuisine'', ''avg_rating''],
           [[''Spice Garden'', ''Indian'', ''4.7''], [''Pizza Paradise'', ''Italian'', ''4.6'']])"
proof -
  have mem: "queries ! 3 \<in> set queries"
    by (simp add: queries_def)
  have "read_csv (to_csv [CHR 0x0A] (result (queries ! 3))) =
      Some (columns (result (queries ! 3)), map (map str_cell) (rows (result (queries ! 3))))"
    using csv_export_round_trip[of "[CHR 0x0A]"] mem by blast
  then show ?thesis
    using mem by (simp add: queries_def csv_eval)
qed

text \<open>
  C6. For the query example at 1-based index \<open>i\<close> of the fixed list, the download of
  the Queries page carries the CSV text of that example's result table: the first line is
  the column names joined by commas, every further line the cells of one row as plain
  text joined by commas (no field is quoted), and the suggested file name is
  \<open>query_<i>_result.csv\<close>.
\<close>

theorem download_is_plain_csv_named_by_index:
  assumes "1 \<le> i" and "i \<le> length queries"
  shows "\<exists>v. queries_page linesep queries (query_options queries ! (i - 1)) = Inr v \<and>
     file_name (download v) = ''query_'' @ str_nat i @ ''_result.csv'' \<and>
     data (download v) = to_csv linesep (result (queries ! (i - 1))) \<and>
     data (download v) =
       concat (map (\<lambda>r. join '','' r @ linesep)
                 (columns (result (queries ! (i - 1))) #
                  map (map str_cell) (rows (result (queries ! (i - 1))))))"
proof -
  from assms have less: "i - 1 < length queries" and suc: "Suc (i - 1) = i"
    by simp_all
  from less have "queries ! (i - 1) \<in> set queries"
    by (rule nth_mem)
  with queries_need_no_quoting[of linesep]
  have plain: "to_csv linesep (result (queries ! (i - 1))) =
      concat (map (\<lambda>r. join '','' r @ linesep)
                (columns (result (queries ! (i - 1))) #
                 map (map str_cell) (rows (result (queries ! (i - 1))))))"
    by blast
  have page: "queries_page linesep queries (query_options queries ! (i - 1)) =
      Inr \<lparr>shown_title = title (queries ! (i - 1)),
           shown_description = description (queries ! (i - 1)),
           shown_query = query (queries ! (i - 1)),
           shown_result = result (queries ! (i - 1)),
           download = \<lparr>data = to_csv linesep (result (queries ! (i - 1))),
                       file_name = ''query_'' @ str_nat i @ ''_result.csv'',
                       mime = ''text/csv''\<rparr>\<rparr>"
    using queries_page_option[OF less, of linesep] unfolding suc .
  from page plain show ?thesis by simp
qed

theorem download_is_plain_csv_named_by_index_witness:
  "(1::nat) \<le> 2 \<and> 2 \<le> length queries \<and>
   (\<exists>v. queries_page [CHR 0x0A] queries (query_options queries ! (2 - 1)) = Inr v \<and>
     file_name (download v) = ''query_2_result.csv'' \<and>
     data (download v) =
       ''restaurant,dish,price,category\<newline>Spice Garden,Butter Chicken,280,Main Course\<newline>Spice Garden,Paneer Tikka,220,Appetizer\<newline>'')"
proof -
  have h1: "(1::nat) \<le> 2" by simp
  have h2: "2 \<le> length queries" by (simp add: length_queries)
  from download_is_plain_csv_named_by_index[OF h1 h2, of "[CHR 0x0A]"]
  obtain v where v: "queries_page [CHR 0x0A] queries (query_options queries ! (2 - 1)) = Inr v"
    "file_name (download v) = ''query_'' @ str_nat 2 @ ''_result.csv''"
    "data (download v) = to_csv [CHR 0x0A] (result (queries ! (2 - 1)))"
    by blast
  have "file_name (download v) = ''query_2_result.csv''"
    using v(2) by (simp add: str_nat.simps digit_char_def)
  moreover have "data (download v) =
      ''restaurant,dish,price,category\<newline>Spice Garden,Butter Chicken,280,Main Course\<newline>Spice Garden,Paneer Tikka,220,Appetizer\<newline>''"
    using v(3) by (simp add: queries_def csv_eval)
  ultimately show ?thesis using h1 h2 v(1) by blast
qed

section \<open>The Visualization page on the registry of the script\<close>

text \<open>
  On its own registry the page raises nothing, provided matplotlib takes the five colours
  of the registry for colours: the vertices of the graph are the five node types, every
  vertex has a colour, and the legend has room for all of them.
\<close>

lemma graph_model_add_nodes:
  "add_nodes (nodes graph_model) ([], []) =
     ([(''Customer'', []), (''Restaurant'', []), (''Dish'', []), (''DeliveryPerson'', []),
       (''Order'', [])],
      [(''Customer'', ''#60a5fa''), (''Restaurant'', ''#f472b6''), (''Dish'', ''#fbbf24''),
       (''DeliveryPerson'', ''#34d399''), (''Order'', ''#a78bfa'')])"
  by (simp add: graph_model_def add_node_def)

lemma graph_model_add_edges:
  "add_edges (edges graph_model) (fst (add_nodes (nodes graph_model) ([], [])), []) =
     ([(''Customer'', [''Order'', ''Restaurant'']), (''Restaurant'', [''Dish'']),
       (''Dish'', []), (''DeliveryPerson'', [''Order'']),
       (''Order'', [''Restaurant'', ''Dish''])],
      [((''Customer'', ''Order''), ''PLACES''), ((''Order'', ''Restaurant''), ''FROM''),
       ((''Order'', ''Dish''), ''CONTAINS''), ((''DeliveryPerson'', ''Order''), ''DELIVERS''),
       ((''Restaurant'', ''Dish''), ''SERVES''), ((''Customer'', ''Restaurant''), ''REVIEWS'')])"
  unfolding graph_model_add_nodes
  by (simp add: graph_model_def add_node_def add_edge_def add_succ_def)

lemma build_graph_graph_model:
  "G_nodes (build_graph graph_model) =
     [''Customer'', ''Restaurant'', ''Dish'', ''DeliveryPerson'', ''Order''] \<and>
   G_edges (build_graph graph_model) =
     [(''Customer'', ''Order''), (''Customer'', ''Restaurant''), (''Restaurant'', ''Dish''),
      (''DeliveryPerson'', ''Order''), (''Order'', ''Restaurant''), (''Order'', ''Dish'')]"
  by (simp add: build_graph_def graph_model_add_edges G_nodes_def G_edges_def)

lemma graph_model_colors_hex: "\<forall>n \<in> set (nodes graph_model). hex_color (node_color n)"
  by (simp add: graph_model_def hex_color_def)

lemma visualization_page_graph_model:
  assumes "\<forall>n \<in> set (nodes graph_model). is_color_like (node_color n)"
  shows "visualization_page is_color_like spring_layout graph_model =
     Inr \<lparr>fig_pos = spring_layout (build_graph graph_model),
          fig_nodes = node_colors_of graph_model,
          fig_edges = G_edges (build_graph graph_model),
          fig_labels = map node_type (nodes graph_model),
          fig_edge_labels = edge_labels_of graph_model,
          fig_legend = map (\<lambda>n. (node_color n, node_icon n, node_type n)) (nodes graph_model)\<rparr>"
proof -
  have "legend (nodes graph_model) =
      Inr (map (\<lambda>n. (node_color n, node_icon n, node_type n)) (nodes graph_model))"
    by (simp add: legend_def graph_model_def)
  moreover have "map node_type (nodes graph_model) =
     [''Customer'', ''Restaurant'', ''Dish'', ''DeliveryPerson'', ''Order'']"
    by (simp add: graph_model_def)
  moreover from assms have "is_color_like ''#60a5fa''" "is_color_like ''#f472b6''"
      "is_color_like ''#fbbf24''" "is_color_like ''#34d399''" "is_color_like ''#a78bfa''"
    by (simp_all add: graph_model_def)
  ultimately show ?thesis
    using graph_model_add_edges
    by (simp add: visualization_page_def build_graph_def node_colors_of_def edge_labels_of_def
        graph_model_add_nodes G_nodes_def G_edges_def)
qed

section \<open>The Visualization page on a registry with a dangling edge\<close>

lemma G_nodes_add_node: "set (G_nodes (add_node n G)) = insert n (set (G_nodes G))"
  by (auto simp: add_node_def G_nodes_def)

lemma G_nodes_add_succ: "G_nodes (add_succ u v G) = G_nodes G"
  by (induction G) (auto simp: add_succ_def G_nodes_def)

lemma G_nodes_add_edge:
  "set (G_nodes (add_edge u v G)) = insert u (insert v (set (G_nodes G)))"
  by (auto simp: add_edge_def G_nodes_add_succ G_nodes_add_node)

lemma G_nodes_add_edges:
  "set (G_nodes (fst (add_edges es (G, L)))) =
     set (G_nodes G) \<union> edge_from ` set es \<union> edge_to ` set es"
  by (induction es arbitrary: G L) (auto simp: G_nodes_add_edge)

lemma G_nodes_add_nodes:
  "set (G_nodes (fst (add_nodes ns (G, C)))) = set (G_nodes G) \<union> node_type ` set ns"
  by (induction ns arbitrary: G C) (auto simp: G_nodes_add_node)

lemma colors_add_nodes:
  "fst ` set (snd (add_nodes ns (G, C))) = fst ` set C \<union> node_type ` set ns"
  by (induction ns arbitrary: G C) (auto simp: dom_update)

text \<open>Every colour in the dictionary \<open>node_colors\<close> is the colour of a node type.\<close>

lemma update_values: "snd ` set (AList.update k v al) \<subseteq> insert v (snd ` set al)"
  by (induction al) auto

lemma color_values_add_nodes:
  "snd ` set (snd (add_nodes ns (G, C))) \<subseteq> snd ` set C \<union> node_color ` set ns"
proof (induction ns arbitrary: G C)
  case Nil
  then show ?case by simp
next
  case (Cons n ns)
  have "snd ` set (snd (add_nodes ns (add_node (node_type n) G,
            AList.update (node_type n) (node_color n) C))) \<subseteq>
        snd ` set (AList.update (node_type n) (node_color n) C) \<union> node_color ` set ns"
    by (rule Cons.IH)
  also have "\<dots> \<subseteq> insert (node_color n) (snd ` set C) \<union> node_color ` set ns"
    using update_values[of "node_type n" "node_color n" C] by blast
  finally show ?case by auto
qed

text \<open>
  With colours that matplotlib takes, the drawing loop stops at the first vertex without
  a colour.
\<close>

lemma draw_nodes_KeyError:
  assumes "\<forall>c \<in> snd ` set cs. is_color_like c"
  shows "\<exists>x \<in> set ns. x \<notin> fst ` set cs \<Longrightarrow>
   \<exists>n. draw_nodes is_color_like cs ns = Inl (KeyError n) \<and> n \<in> set ns \<and> n \<notin> fst ` set cs"
proof (induction ns)
  case Nil
  then show ?case by simp
next
  case (Cons a ns)
  show ?case
  proof (cases "map_of cs a")
    case None
    then have "a \<notin> fst ` set cs"
      using map_of_eq_None_iff[of cs a] by simp
    with None show ?thesis by simp
  next
    case (Some c)
    then have "a \<in> fst ` set cs"
      using map_of_eq_None_iff[of cs a] by simp
    with Cons.prems have "\<exists>x \<in> set ns. x \<notin> fst ` set cs" by auto
    from Cons.IH[OF this] obtain n where
      n: "draw_nodes is_color_like cs ns = Inl (KeyError n)" "n \<in> set ns"
         "n \<notin> fst ` set cs"
      by blast
    from Some have "(a, c) \<in> set cs" by (rule map_of_SomeD)
    then have "c \<in> snd ` set cs" by force
    with assms have "is_color_like c" by blast
    with Some n show ?thesis by simp
  qed
qed

text \<open>A colour that matplotlib refuses stops the loop before any later vertex is looked up.\<close>

lemma draw_nodes_ValueError:
  "map_of cs a = Some c \<Longrightarrow> \<not> is_color_like c \<Longrightarrow>
   draw_nodes is_color_like cs (a # ns) = Inl (ValueError c)"
  by simp

lemma broken_nodes:
  "add_nodes (nodes broken_model) ([], []) =
     ([(''Customer'', []), (''Restaurant'', []), (''Dish'', []), (''DeliveryPerson'', []),
       (''Order'', [])],
      [(''Customer'', ''#60a5fa''), (''Restaurant'', ''#f472b6''), (''Dish'', ''#fbbf24''),
       (''DeliveryPerson'', ''#34d399''), (''Order'', ''#a78bfa'')])"
  by (simp add: broken_model_def graph_model_def add_node_def)

lemma broken_graph_nodes:
  "G_nodes (fst (add_edges (edges broken_model)
       (fst (add_nodes (nodes broken_model) ([], [])), []))) =
     [''Customer'', ''Restaurant'', ''Dish'', ''DeliveryPerson'', ''Order'', ''Courier'']"
  unfolding broken_nodes
  by (simp add: broken_model_def graph_model_def add_node_def add_edge_def add_succ_def
      G_nodes_def)

lemma broken_model_colors_hex: "\<forall>n \<in> set (nodes broken_model). hex_color (node_color n)"
  by (simp add: broken_model_def graph_model_def hex_color_def)

text \<open>
  The hypothesis on the colours is needed: on a registry whose only node type \<open>A\<close>
  has a colour that is refused, and whose only edge comes from the unknown \<open>Z\<close>, the
  loop fails drawing \<open>A\<close>, before it looks \<open>Z\<close> up.
\<close>

lemma refused_colour_comes_first:
  "visualization_page hex_color line_layout
     \<lparr>nodes = [\<lparr>node_type = ''A'', node_properties = [], node_color = ''notacolor'',
                 node_icon = []\<rparr>],
      edges = [\<lparr>edge_from = ''Z'', edge_to = ''A'', edge_relationship = ''R'',
                 edge_properties = []\<rparr>]\<rparr> =
   Inl (ValueError ''notacolor'')"
  by (simp add: visualization_page_def add_node_def add_edge_def add_succ_def G_nodes_def
      hex_color_def)

text \<open>
  C1, as the specification states it: for every registry in which the \<open>from\<close> of some
  edge type is the name of no node type, rendering the Visualization page raises
  ModelIntegrityError. On the registry with the edge from \<open>Courier\<close> the page draws the
  five node types and then raises \<open>KeyError\<close> for that name instead.
\<close>

theorem dangling_edge_raises_KeyError_not_ModelIntegrityError:
  "visualization_page hex_color line_layout broken_model = Inl (KeyError ''Courier'') \<and>
   visualization_page hex_color line_layout broken_model \<noteq> Inl ModelIntegrityError"
proof -
  obtain G L where edges_eq:
    "add_edges (edges broken_model) (fst (add_nodes (nodes broken_model) ([], [])), []) = (G, L)"
    by fastforce
  have G: "G_nodes G =
      [''Customer'', ''Restaurant'', ''Dish'', ''DeliveryPerson'', ''Order'', ''Courier'']"
    using broken_graph_nodes by (simp add: edges_eq)
  have "visualization_page hex_color line_layout broken_model = Inl (KeyError ''Courier'')"
    using edges_eq by (simp add: visualization_page_def broken_nodes G hex_color_def)
  then show ?thesis by simp
qed

text \<open>
  C1, amended: for every registry whose node colours matplotlib takes for colours and in
  which the \<open>from\<close> of some edge type is the \<open>type\<close> of no node type, and for every
  layout, rendering the Visualization page is aborted by the \<open>KeyError\<close> of the colour
  lookup in the loop that draws the vertices; its key is an endpoint of an edge type that
  is the \<open>type\<close> of no node type. The edge is neither dropped nor drawn without a
  label: nothing is returned.
\<close>

theorem dangling_edge_aborts_with_KeyError:
  assumes "\<exists>e \<in> set (edges m). edge_from e \<notin> node_type ` set (nodes m)"
    and "\<forall>n \<in> set (nodes m). is_color_like (node_color n)"
  shows "\<exists>n. visualization_page is_color_like spring_layout m = Inl (KeyError n) \<and>
             n \<notin> node_type ` set (nodes m) \<and>
             (\<exists>e \<in> set (edges m). n = edge_from e \<or> n = edge_to e)"
proof -
  obtain G0 C where nodes_eq: "add_nodes (nodes m) ([], []) = (G0, C)" by fastforce
  obtain G L where edges_eq: "add_edges (edges m) (G0, []) = (G, L)" by fastforce
  have keys: "fst ` set C = node_type ` set (nodes m)"
    using colors_add_nodes[of "nodes m" "[]" "[]"] by (simp add: nodes_eq)
  have "snd ` set C \<subseteq> node_color ` set (nodes m)"
    using color_values_add_nodes[of "nodes m" "[]" "[]"] by (simp add: nodes_eq)
  with assms(2) have colours: "\<forall>c \<in> snd ` set C. is_color_like c" by auto
  have G0_nodes: "set (G_nodes G0) = node_type ` set (nodes m)"
    using G_nodes_add_nodes[of "nodes m" "[]" "[]"] by (simp add: nodes_eq G_nodes_def)
  have G_nodes: "set (G_nodes G) =
      node_type ` set (nodes m) \<union> edge_from ` set (edges m) \<union> edge_to ` set (edges m)"
    using G_nodes_add_edges[of "edges m" G0 "[]"] by (simp add: edges_eq G0_nodes)
  from assms(1) have "\<exists>x \<in> set (G_nodes G). x \<notin> fst ` set C"
    unfolding keys G_nodes by blast
  from draw_nodes_KeyError[OF colours this] obtain n where
    n: "draw_nodes is_color_like C (G_nodes G) = Inl (KeyError n)" "n \<in> set (G_nodes G)"
       "n \<notin> fst ` set C"
    by blast
  have "visualization_page is_color_like spring_layout m = Inl (KeyError n)"
    by (simp add: visualization_page_def nodes_eq edges_eq n(1))
  moreover from n(2,3) have "n \<notin> node_type ` set (nodes m)"
      "\<exists>e \<in> set (edges m). n = edge_from e \<or> n = edge_to e"
    unfolding keys G_nodes by auto
  ultimately show ?thesis by blast
qed

theorem dangling_edge_aborts_with_KeyError_witness:
  "(\<exists>e \<in> set (edges broken_model). edge_from e \<notin> node_type ` set (nodes broken_model)) \<and>
   list_all (\<lambda>n. hex_color (node_color n)) (nodes broken_model) \<and>
   (\<exists>n. visualization_page hex_color line_layout broken_model = Inl (KeyError n) \<and>
        n \<notin> node_type ` set (nodes broken_model) \<and>
        (\<exists>e \<in> set (edges broken_model). n = edge_from e \<or> n = edge_to e))"
proof -
  have h: "\<exists>e \<in> set (edges broken_model).
      edge_from e \<notin> node_type ` set (nodes broken_model)"
    by (simp add: broken_model_def graph_model_def)
  have cols: "list_all (\<lambda>n. hex_color (node_color n)) (nodes broken_model)"
    using broken_model_colors_hex by (simp add: list_all_iff)
  have "\<exists>n. visualization_page hex_color line_layout broken_model = Inl (KeyError n) \<and>
        n \<notin> node_type ` set (nodes broken_model) \<and>
        (\<exists>e \<in> set (edges broken_model). n = edge_from e \<or> n = edge_to e)"
    by (rule dangling_edge_aborts_with_KeyError[OF h broken_model_colors_hex])
  then show ?thesis
    by (rule conjI[OF h conjI[OF cols]])
qed

end
